theory Spec2Isabelle
  imports Main "HOL-Library.Sublist"
begin

section \<open>Python string operations used by the converter\<close>

text \<open>
  Paths are Python strings, modelled as \<open>string\<close>. Three string methods occur in
  \<^verbatim>\<open>silx/io/spectoh5.py\<close>: \<^verbatim>\<open>endswith\<close>, \<^verbatim>\<open>lstrip\<close> and \<^verbatim>\<open>replace\<close>.
\<close>

definition endswith :: "string \<Rightarrow> string \<Rightarrow> bool" where
  "endswith s suf = suffix suf s"

definition lstrip :: "string \<Rightarrow> string \<Rightarrow> string" where
  \<comment> \<open>\<^verbatim>\<open>s.lstrip(chars)\<close>: drop every leading character that occurs in \<open>chars\<close>.\<close>
  "lstrip s chars = dropWhile (\<lambda>c. c \<in> set chars) s"

text \<open>
  \<^verbatim>\<open>s.replace(old, new)\<close> replaces every non-overlapping occurrence of \<open>old\<close>, scanning
  from the left. With an empty \<open>old\<close> Python inserts \<open>new\<close> before every character and
  at the end.
\<close>

function str_replace :: "string \<Rightarrow> string \<Rightarrow> string \<Rightarrow> string" where
  "str_replace s old new =
     (if old = [] then new @ concat (map (\<lambda>c. c # new) s)
      else if s = [] then []
      else if prefix old s then new @ str_replace (drop (length old) s) old new
      else hd s # str_replace (tl s) old new)"
  by pat_completeness auto
termination
  by (relation "measure (\<lambda>(s, old, new). length s)") auto

declare str_replace.simps [simp del]

section \<open>Regular expressions: \<^verbatim>\<open>re.match\<close>\<close>

text \<open>
  The two alias patterns use literals, \<^verbatim>\<open>.\<close>, the class \<^verbatim>\<open>[0-9]\<close>, \<^verbatim>\<open>*\<close>, \<^verbatim>\<open>+\<close>,
  \<^verbatim>\<open>?\<close>, grouping and a final \<^verbatim>\<open>$\<close>. Matching is decided with derivatives: a
  pattern without back-references matches exactly when the string belongs to its
  language, whatever the order in which a backtracking engine tries the alternatives.
\<close>

datatype regex =
    Never
  | Empty
  | Chr char
  | Dot
  | Range char char
  | Seq regex regex
  | Alt regex regex
  | Star regex

definition newline :: char where
  "newline = CHR 0x0A"

fun accepts_char :: "regex \<Rightarrow> char \<Rightarrow> bool" where
  "accepts_char (Chr a) c = (c = a)"
| "accepts_char Dot c = (c \<noteq> newline)"
| "accepts_char (Range lo hi) c =
     ((of_char lo :: nat) \<le> of_char c \<and> (of_char c :: nat) \<le> of_char hi)"
| "accepts_char r c = False"

fun nullable :: "regex \<Rightarrow> bool" where
  "nullable Never = False"
| "nullable Empty = True"
| "nullable (Chr a) = False"
| "nullable Dot = False"
| "nullable (Range lo hi) = False"
| "nullable (Seq r s) = (nullable r \<and> nullable s)"
| "nullable (Alt r s) = (nullable r \<or> nullable s)"
| "nullable (Star r) = True"

fun deriv :: "char \<Rightarrow> regex \<Rightarrow> regex" where
  "deriv c Never = Never"
| "deriv c Empty = Never"
| "deriv c (Chr a) = (if accepts_char (Chr a) c then Empty else Never)"
| "deriv c Dot = (if accepts_char Dot c then Empty else Never)"
| "deriv c (Range lo hi) = (if accepts_char (Range lo hi) c then Empty else Never)"
| "deriv c (Seq r s) =
     (if nullable r then Alt (Seq (deriv c r) s) (deriv c s) else Seq (deriv c r) s)"
| "deriv c (Alt r s) = Alt (deriv c r) (deriv c s)"
| "deriv c (Star r) = Seq (deriv c r) (Star r)"

fun fullmatch :: "regex \<Rightarrow> string \<Rightarrow> bool" where
  "fullmatch r [] = nullable r"
| "fullmatch r (c # cs) = fullmatch (deriv c r) cs"

definition Plus :: "regex \<Rightarrow> regex" where
  \<comment> \<open>\<^verbatim>\<open>r+\<close>\<close>
  "Plus r = Seq r (Star r)"

definition Opt :: "regex \<Rightarrow> regex" where
  \<comment> \<open>\<^verbatim>\<open>r?\<close>\<close>
  "Opt r = Alt r Empty"

fun Lit :: "string \<Rightarrow> regex" where
  "Lit [] = Empty"
| "Lit (c # cs) = Seq (Chr c) (Lit cs)"

definition Digits :: regex where
  \<comment> \<open>\<^verbatim>\<open>[0-9]+\<close>\<close>
  "Digits = Plus (Range CHR ''0'' CHR ''9'')"

text \<open>
  \<^verbatim>\<open>re.match(r + "$", s)\<close>: the pattern \<open>r\<close> must match from the start of \<open>s\<close>, and
  \<^verbatim>\<open>$\<close> holds at the end of the string or just before a newline that ends it.
\<close>

definition re_match_dollar :: "regex \<Rightarrow> string \<Rightarrow> bool" where
  "re_match_dollar r s =
     (fullmatch r s \<or> (s \<noteq> [] \<and> last s = newline \<and> fullmatch r (butlast s)))"

text \<open>\<^verbatim>\<open>r".*/([0-9]+\.[0-9]+)/instrument/mca_([0-9]+)/?data$"\<close> without its \<^verbatim>\<open>$\<close>.\<close>

definition dataset_alias_re :: regex where
  "dataset_alias_re =
     Seq (Star Dot) (Seq (Chr CHR ''/'')
       (Seq (Seq Digits (Seq (Chr CHR ''.'') Digits))
         (Seq (Lit ''/instrument/mca_'')
           (Seq Digits
             (Seq (Opt (Chr CHR ''/'')) (Lit ''data''))))))"

text \<open>\<^verbatim>\<open>r".*/([0-9]+\.[0-9]+)/instrument/mca_([0-9]+)/?$"\<close> without its \<^verbatim>\<open>$\<close>.\<close>

definition group_alias_re :: regex where
  "group_alias_re =
     Seq (Star Dot) (Seq (Chr CHR ''/'')
       (Seq (Seq Digits (Seq (Chr CHR ''.'') Digits))
         (Seq (Lit ''/instrument/mca_'')
           (Seq Digits
             (Opt (Chr CHR ''/''))))))"

subsection \<open>The language of a pattern\<close>

text \<open>
  The set of strings a pattern denotes, used to reason about \<open>fullmatch\<close> on paths of
  a given shape; \<open>is_digits\<close> recognises a non-empty run of ASCII digits.
\<close>

definition conc :: "string set \<Rightarrow> string set \<Rightarrow> string set" where
  "conc A B = {u @ v | u v. u \<in> A \<and> v \<in> B}"

inductive_set star :: "string set \<Rightarrow> string set" for A :: "string set" where
  star_nil: "[] \<in> star A"
| star_app: "u \<in> A \<Longrightarrow> v \<in> star A \<Longrightarrow> u @ v \<in> star A"

fun lang :: "regex \<Rightarrow> string set" where
  "lang Never = {}"
| "lang Empty = {[]}"
| "lang (Chr a) = {[a]}"
| "lang Dot = {[c] | c. c \<noteq> newline}"
| "lang (Range lo hi) = {[c] | c. (of_char lo :: nat) \<le> of_char c \<and> (of_char c :: nat) \<le> of_char hi}"
| "lang (Seq r s) = conc (lang r) (lang s)"
| "lang (Alt r s) = lang r \<union> lang s"
| "lang (Star r) = star (lang r)"

definition is_digits :: "string \<Rightarrow> bool" where
  "is_digits ds = (ds \<noteq> [] \<and> list_all (\<lambda>c. c \<in> set ''0123456789'') ds)"

section \<open>Source tree, target container, log\<close>

text \<open>
  The four node classes of \<^verbatim>\<open>silx.io.specfileh5\<close>. A dataset exposes its \<^verbatim>\<open>shape\<close>
  (the empty tuple for a scalar) and its data, kept opaque as \<open>'v\<close>.
\<close>

datatype 'v spec_obj =
    SpecFileH5Group
  | SpecFileH5Dataset (shape: "nat list") (payload: 'v)
  | SpecFileH5LinkToGroup
  | SpecFileH5LinkToDataset

text \<open>
  Modelled from the spec: the target container (an \<^verbatim>\<open>h5py.File\<close>, not part of this
  repository) is "a mutable mapping from path to Node-equivalent, supporting
  create-group, create-dataset(path, data, options), create-link(path, target-path,
  kind), existence-check, and delete". A dataset member records the data and the keyword
  options its creation call received; a link records its kind and the name of the
  object it was bound to. Paths are compared as they are written, and the groups an HDF5
  binding creates on the way to a new member are not part of this contract.
\<close>

type_synonym kwargs = "(string \<times> string) list"

datatype 'v member =
    H5Dataset 'v kwargs
  | H5Group
  | HardLink string
  | SoftLink string

type_synonym 'v container = "string \<rightharpoonup> 'v member"

datatype level = DEBUG | WARNING

datatype event = Opened_SpecFileH5 string | Opened_File string string | Closed_File

datatype error = ValueError | IOError | UnboundLocalError

text \<open>
  The state the converter acts on: the open target container \<open>h5f\<close>, the records sent
  to the module's logger, and the files opened and closed by locator.
\<close>

record 'v env =
  h5f :: "'v container"
  logger :: "(level \<times> string) list"
  events :: "event list"

text \<open>A raise carries the state reached when it surfaces: nothing is rolled back.\<close>

type_synonym 'v result = "(error \<times> 'v env) + 'v env"

definition final_env :: "'v result \<Rightarrow> 'v env" where
  "final_env r = (case r of Inl (e, st) \<Rightarrow> st | Inr st \<Rightarrow> st)"

definition contains :: "'v env \<Rightarrow> string \<Rightarrow> bool" where
  \<comment> \<open>\<^verbatim>\<open>name in h5f\<close>\<close>
  "contains st name = (h5f st name \<noteq> None)"

definition del_member :: "string \<Rightarrow> 'v env \<Rightarrow> 'v env" where
  \<comment> \<open>\<^verbatim>\<open>del h5f[name]\<close>\<close>
  "del_member name st = st\<lparr>h5f := (h5f st)(name := None)\<rparr>"

definition set_member :: "string \<Rightarrow> 'v member \<Rightarrow> 'v env \<Rightarrow> 'v env" where
  "set_member name m st = st\<lparr>h5f := (h5f st)(name \<mapsto> m)\<rparr>"

definition create_dataset :: "string \<Rightarrow> 'v \<Rightarrow> kwargs \<Rightarrow> 'v env \<Rightarrow> 'v env" where
  \<comment> \<open>\<^verbatim>\<open>h5f.create_dataset(name, data=obj, **kwargs)\<close>\<close>
  "create_dataset name d kw st = set_member name (H5Dataset d kw) st"

definition create_group :: "string \<Rightarrow> 'v env \<Rightarrow> 'v env" where
  \<comment> \<open>\<^verbatim>\<open>h5f.create_group(name)\<close>\<close>
  "create_group name st = set_member name H5Group st"

definition log :: "level \<Rightarrow> string \<Rightarrow> 'v env \<Rightarrow> 'v env" where
  \<comment> \<open>\<^verbatim>\<open>logger.debug(msg)\<close>, \<^verbatim>\<open>logger.warn(msg)\<close>\<close>
  "log lvl msg st = st\<lparr>logger := logger st @ [(lvl, msg)]\<rparr>"

section \<open>The converter\<close>

text \<open>
  \<^verbatim>\<open>create_link(link_name, target)\<close>, closed over \<^verbatim>\<open>overwrite_data\<close> and
  \<^verbatim>\<open>link_type\<close>. The handle \<open>target\<close> is represented by its \<^verbatim>\<open>name\<close>. The link type
  is tested last, after the existence check and the deletion.
\<close>

definition create_link ::
    "bool \<Rightarrow> string \<Rightarrow> string \<Rightarrow> string \<Rightarrow> 'v env \<Rightarrow> 'v result" where
  "create_link overwrite_data link_type link_name target st =
     (case (if \<not> contains st link_name then
              Some (log DEBUG (''Creating link '' @ link_name @ '' -> '' @ target) st)
            else if overwrite_data then
              Some (del_member link_name
                (log WARNING (''Overwriting '' @ link_name @ '' with link to'' @ target) st))
            else None) of
        None \<Rightarrow>
          Inr (log WARNING
                (link_name @ '' already exist. Can't create link to '' @ target) st)
      | Some st1 \<Rightarrow>
          if link_type = ''hard'' then Inr (set_member link_name (HardLink target) st1)
          else if link_type = ''soft'' then Inr (set_member link_name (SoftLink target) st1)
          else Inl (ValueError, st1))"

text \<open>
  \<^verbatim>\<open>append_spec_member_to_h5(spec_h5_name, obj)\<close>, closed over \<^verbatim>\<open>h5path\<close>,
  \<^verbatim>\<open>overwrite_data\<close>, \<^verbatim>\<open>link_type\<close> and \<^verbatim>\<open>create_dataset_args\<close>. The locals \<^verbatim>\<open>ds\<close>
  and \<^verbatim>\<open>grp\<close> are bound only on the branch that creates the member; reading an
  unbound local raises \<^verbatim>\<open>UnboundLocalError\<close>. A created handle's \<^verbatim>\<open>name\<close> is the
  name it was created under.
\<close>

definition append_dataset ::
    "bool \<Rightarrow> string \<Rightarrow> kwargs \<Rightarrow> string \<Rightarrow> nat list \<Rightarrow> 'v \<Rightarrow> 'v env \<Rightarrow> 'v result" where
  "append_dataset overwrite_data link_type create_dataset_args h5_name shp d st =
     (let st1 = log DEBUG (''Saving dataset: '' @ h5_name) st;
          member_initially_exists = contains st1 h5_name;
          st2 = (if overwrite_data \<and> member_initially_exists
                 then del_member h5_name (log WARNING (''Overwriting dataset: '' @ h5_name) st1)
                 else st1);
          (ds, st3) = (if overwrite_data \<or> \<not> member_initially_exists
                 then (if shp = []
                       then (Some h5_name, create_dataset h5_name d [] st2)
                       else (Some h5_name, create_dataset h5_name d create_dataset_args st2))
                 else (None, st2));
          ignoring = (\<lambda>s. if \<not> overwrite_data \<and> member_initially_exists
                 then log WARNING (''Ignoring existing dataset: '' @ h5_name) s else s)
      in if re_match_dollar dataset_alias_re h5_name then
           (let link_name = str_replace h5_name ''instrument'' ''measurement''
            in case ds of
                 None \<Rightarrow> Inl (UnboundLocalError, st3)
               | Some target \<Rightarrow>
                   (case create_link overwrite_data link_type link_name target st3 of
                      Inl err \<Rightarrow> Inl err
                    | Inr st4 \<Rightarrow> Inr (ignoring st4)))
         else Inr (ignoring st3))"

definition append_group ::
    "bool \<Rightarrow> string \<Rightarrow> string \<Rightarrow> 'v env \<Rightarrow> 'v result" where
  "append_group overwrite_data link_type h5_name st =
     (let (grp, st1) = (if \<not> contains st h5_name
                 then (Some h5_name,
                       create_group h5_name (log DEBUG (''Creating group: '' @ h5_name) st))
                 else (None, st))
      in if re_match_dollar group_alias_re h5_name then
           (let link_name = str_replace h5_name ''instrument'' ''measurement'' @ ''/info''
            in case grp of
                 None \<Rightarrow> Inl (UnboundLocalError, st1)
               | Some target \<Rightarrow> create_link overwrite_data link_type link_name target st1)
         else Inr st1)"

definition append_spec_member_to_h5 ::
    "string \<Rightarrow> bool \<Rightarrow> string \<Rightarrow> kwargs \<Rightarrow> string \<Rightarrow> 'v spec_obj \<Rightarrow> 'v env \<Rightarrow> 'v result" where
  "append_spec_member_to_h5 h5path overwrite_data link_type create_dataset_args
       spec_h5_name obj st =
     (let h5_name = h5path @ lstrip spec_h5_name ''/''
      in case obj of
           SpecFileH5LinkToGroup \<Rightarrow> Inr (log DEBUG (''Ignoring link: '' @ h5_name) st)
         | SpecFileH5LinkToDataset \<Rightarrow> Inr (log DEBUG (''Ignoring link: '' @ h5_name) st)
         | SpecFileH5Dataset shp d \<Rightarrow>
             append_dataset overwrite_data link_type create_dataset_args h5_name shp d st
         | SpecFileH5Group \<Rightarrow> append_group overwrite_data link_type h5_name st)"

text \<open>
  Modelled from the spec: \<^verbatim>\<open>SpecFileH5.visititems\<close> (in \<^verbatim>\<open>specfileh5.py\<close>, not among
  the sources) is "a full-tree visitation that yields, for every node, its normalized
  path and a typed handle". The tree is given by the sequence of pairs it yields; the
  callback is applied to each in turn and a raise ends the traversal.
\<close>

type_synonym 'v sfh5 = "(string \<times> 'v spec_obj) list"

fun visititems ::
    "(string \<Rightarrow> 'v spec_obj \<Rightarrow> 'v env \<Rightarrow> 'v result) \<Rightarrow> 'v sfh5 \<Rightarrow> 'v env \<Rightarrow> 'v result" where
  "visititems f [] st = Inr st"
| "visititems f ((name, obj) # rest) st =
     (case f name obj st of
        Inl err \<Rightarrow> Inl err
      | Inr st' \<Rightarrow> visititems f rest st')"

text \<open>
  The arguments \<^verbatim>\<open>spec_file\<close> and \<^verbatim>\<open>h5_file\<close> are either a path or an instance
  already open. An open \<^verbatim>\<open>h5py.File\<close> is the container \<open>h5f\<close> of the state. The two
  constructors that open a file by path belong to other modules and are parameters:
  each returns what it opens or raises.
\<close>

datatype 'v spec_file = SpecPath string | SpecInstance "'v sfh5"

datatype h5_file = H5Path string | H5Instance

record 'v opener =
  open_SpecFileH5 :: "string \<Rightarrow> error + 'v sfh5"
  open_File :: "string \<Rightarrow> string \<Rightarrow> error + 'v container"

definition write_spec_to_h5 ::
    "'v opener \<Rightarrow> 'v spec_file \<Rightarrow> h5_file \<Rightarrow> string \<Rightarrow> string \<Rightarrow> bool \<Rightarrow> string \<Rightarrow>
     kwargs option \<Rightarrow> 'v env \<Rightarrow> 'v result" where
  "write_spec_to_h5 ext spec_file h5_file h5path h5_file_mode overwrite_data link_type
       create_dataset_args st =
     (case (case spec_file of
              SpecInstance items \<Rightarrow> Inr (items, st)
            | SpecPath p \<Rightarrow>
                (case open_SpecFileH5 ext p of
                   Inl err \<Rightarrow> Inl (err, st)
                 | Inr items \<Rightarrow>
                     Inr (items, st\<lparr>events := events st @ [Opened_SpecFileH5 p]\<rparr>))) of
        Inl err \<Rightarrow> Inl err
      | Inr (sfh5, st1) \<Rightarrow>
     (case (case h5_file of
              H5Instance \<Rightarrow> Inr st1
            | H5Path p \<Rightarrow>
                (case open_File ext p h5_file_mode of
                   Inl err \<Rightarrow> Inl (err, st1)
                 | Inr c \<Rightarrow>
                     Inr (st1\<lparr>h5f := c,
                              events := events st1 @ [Opened_File p h5_file_mode]\<rparr>))) of
        Inl err \<Rightarrow> Inl err
      | Inr st2 \<Rightarrow>
     (let h5path' = (if \<not> endswith h5path ''/'' then h5path @ ''/'' else h5path);
          create_dataset_args' =
            (case create_dataset_args of None \<Rightarrow> [] | Some kw \<Rightarrow> kw)
      in case visititems
                (append_spec_member_to_h5 h5path' overwrite_data link_type
                   create_dataset_args') sfh5 st2 of
           Inl err \<Rightarrow> Inl err
         | Inr st3 \<Rightarrow>
             (case h5_file of
                H5Instance \<Rightarrow> Inr st3
              | H5Path p \<Rightarrow> Inr (st3\<lparr>events := events st3 @ [Closed_File]\<rparr>)))))"

definition convert ::
    "'v opener \<Rightarrow> 'v spec_file \<Rightarrow> h5_file \<Rightarrow> string \<Rightarrow> string \<Rightarrow> kwargs option \<Rightarrow>
     'v env \<Rightarrow> 'v result" where
  "convert ext spec_file h5_file h5_file_mode link_type create_dataset_args st =
     (if h5_file_mode \<notin> set [''w'', ''w-''] then Inl (IOError, st)
      else write_spec_to_h5 ext spec_file h5_file ''/'' h5_file_mode False link_type
             create_dataset_args st)"

section \<open>Nodes with a derived alias, example states\<close>


text \<open>States and collaborators used in the examples; dataset payloads are numbers.\<close>

definition empty_env :: "nat env" where
  "empty_env = \<lparr>h5f = Map.empty, logger = [], events = []\<rparr>"

definition env_of :: "nat container \<Rightarrow> nat env" where
  "env_of c = \<lparr>h5f = c, logger = [], events = []\<rparr>"

definition no_opener :: "nat opener" where
  "no_opener = \<lparr>open_SpecFileH5 = (\<lambda>p. Inl IOError), open_File = (\<lambda>p m. Inl IOError)\<rparr>"


text \<open>A scan with one MCA detector, and the target a first conversion of it leaves.\<close>

definition mca_scan :: "nat sfh5" where
  "mca_scan =
     [(''/1.1'', SpecFileH5Group),
      (''/1.1/instrument'', SpecFileH5Group),
      (''/1.1/instrument/mca_0'', SpecFileH5Group),
      (''/1.1/instrument/mca_0/data'', SpecFileH5Dataset [1024] 3)]"

definition converted_mca_scan :: "nat env" where
  "converted_mca_scan =
     \<lparr>h5f = [''/1.1'' \<mapsto> H5Group,
             ''/1.1/instrument'' \<mapsto> H5Group,
             ''/1.1/instrument/mca_0'' \<mapsto> H5Group,
             ''/1.1/measurement/mca_0/info'' \<mapsto> HardLink ''/1.1/instrument/mca_0'',
             ''/1.1/instrument/mca_0/data'' \<mapsto> H5Dataset 3 [],
             ''/1.1/measurement/mca_0/data'' \<mapsto> HardLink ''/1.1/instrument/mca_0/data''],
      logger = [(DEBUG, ''Creating group: /1.1''),
                (DEBUG, ''Creating group: /1.1/instrument''),
                (DEBUG, ''Creating group: /1.1/instrument/mca_0''),
                (DEBUG, ''Creating link /1.1/measurement/mca_0/info -> /1.1/instrument/mca_0''),
                (DEBUG, ''Saving dataset: /1.1/instrument/mca_0/data''),
                (DEBUG, ''Creating link /1.1/measurement/mca_0/data -> /1.1/instrument/mca_0/data'')],
      events = []\<rparr>"


section \<open>The steps of a node and of a conversion, named\<close>













section \<open>Matching by derivatives decides membership in the language\<close>

lemma concI: "u \<in> A \<Longrightarrow> v \<in> B \<Longrightarrow> u @ v \<in> conc A B"
  by (auto simp: conc_def)

lemma nil_in_conc: "[] \<in> conc A B \<longleftrightarrow> [] \<in> A \<and> [] \<in> B"
  by (auto simp: conc_def)

lemma cons_in_conc:
  "c # w \<in> conc A B \<longleftrightarrow>
     ([] \<in> A \<and> c # w \<in> B) \<or> (\<exists>u v. w = u @ v \<and> c # u \<in> A \<and> v \<in> B)"
  by (auto simp: conc_def Cons_eq_append_conv)

lemma star_cons_split:
  assumes "w \<in> star A" and "w = c # x"
  shows "\<exists>u v. x = u @ v \<and> c # u \<in> A \<and> v \<in> star A"
  using assms
proof (induction arbitrary: x rule: star.induct)
  case star_nil
  then show ?case by simp
next
  case (star_app u v)
  show ?case
  proof (cases u)
    case Nil
    with star_app show ?thesis by simp
  next
    case (Cons a u')
    with star_app.prems have "a = c" and "x = u' @ v" by simp_all
    with Cons star_app.hyps show ?thesis by blast
  qed
qed

lemma cons_in_star:
  "c # w \<in> star A \<longleftrightarrow> (\<exists>u v. w = u @ v \<and> c # u \<in> A \<and> v \<in> star A)"
proof
  assume "c # w \<in> star A"
  then show "\<exists>u v. w = u @ v \<and> c # u \<in> A \<and> v \<in> star A"
    using star_cons_split by blast
next
  assume "\<exists>u v. w = u @ v \<and> c # u \<in> A \<and> v \<in> star A"
  then obtain u v where "w = u @ v" "c # u \<in> A" "v \<in> star A" by blast
  then show "c # w \<in> star A"
    using star_app [of "c # u" A v] by simp
qed

lemma nullable_lang: "nullable r \<longleftrightarrow> [] \<in> lang r"
  by (induction r) (auto simp: nil_in_conc intro: star_nil)

lemma in_conc: "w \<in> conc A B \<longleftrightarrow> (\<exists>u v. w = u @ v \<and> u \<in> A \<and> v \<in> B)"
  by (auto simp: conc_def)

lemma deriv_lang: "w \<in> lang (deriv c r) \<longleftrightarrow> c # w \<in> lang r"
proof (induction r arbitrary: w)
  case (Seq r s)
  have "w \<in> conc (lang (deriv c r)) (lang s) \<longleftrightarrow>
          (\<exists>u v. w = u @ v \<and> c # u \<in> lang r \<and> v \<in> lang s)"
    by (simp add: in_conc Seq.IH)
  with Seq.IH(2) show ?case
    by (simp add: cons_in_conc nullable_lang) blast
next
  case (Star r)
  have "w \<in> conc (lang (deriv c r)) (star (lang r)) \<longleftrightarrow>
          (\<exists>u v. w = u @ v \<and> c # u \<in> lang r \<and> v \<in> star (lang r))"
    by (simp add: in_conc Star.IH)
  then show ?case
    by (simp add: cons_in_star)
qed auto

lemma fullmatch_lang: "fullmatch r w \<longleftrightarrow> w \<in> lang r"
  by (induction w arbitrary: r) (simp_all add: nullable_lang deriv_lang)


subsection \<open>Shapes of paths\<close>

lemma Lit_lang: "lang (Lit s) = {s}"
  by (induction s) (auto simp: conc_def)

lemma star_Dot: "newline \<notin> set p \<Longrightarrow> p \<in> lang (Star Dot)"
proof (induction p)
  case Nil
  show ?case by (simp add: star_nil)
next
  case (Cons c p)
  then have "[c] \<in> lang Dot" and "p \<in> star (lang Dot)" by auto
  then have "[c] @ p \<in> star (lang Dot)" by (rule star_app)
  then show ?case by simp
qed

lemma digit_Range: "c \<in> set ''0123456789'' \<Longrightarrow> [c] \<in> lang (Range CHR ''0'' CHR ''9'')"
  by auto

lemma star_digits:
  "list_all (\<lambda>c. c \<in> set ''0123456789'') ds \<Longrightarrow> ds \<in> star (lang (Range CHR ''0'' CHR ''9''))"
proof (induction ds)
  case Nil
  show ?case by (rule star_nil)
next
  case (Cons c ds)
  then have "[c] \<in> lang (Range CHR ''0'' CHR ''9'')" and "ds \<in> star (lang (Range CHR ''0'' CHR ''9''))"
    using digit_Range by simp_all
  then have "[c] @ ds \<in> star (lang (Range CHR ''0'' CHR ''9''))" by (rule star_app)
  then show ?case by simp
qed

lemma Digits_lang: "is_digits ds \<Longrightarrow> ds \<in> lang Digits"
proof -
  assume a: "is_digits ds"
  then obtain c cs where ds: "ds = c # cs" by (cases ds) (auto simp: is_digits_def)
  with a have "[c] \<in> lang (Range CHR ''0'' CHR ''9'')" and "cs \<in> star (lang (Range CHR ''0'' CHR ''9''))"
    using digit_Range star_digits by (simp_all add: is_digits_def)
  then have "[c] @ cs \<in> conc (lang (Range CHR ''0'' CHR ''9'')) (star (lang (Range CHR ''0'' CHR ''9'')))"
    by (rule concI)
  with ds show ?thesis by (simp add: Digits_def Plus_def)
qed

lemma Opt_lang: "lang (Opt r) = lang r \<union> {[]}"
  by (simp add: Opt_def)

lemma SeqI: "u \<in> lang r \<Longrightarrow> v \<in> lang s \<Longrightarrow> u @ v \<in> lang (Seq r s)"
  by (simp add: concI)

lemma scan_mca_prefix_lang:
  assumes "newline \<notin> set p" "is_digits a" "is_digits b" "is_digits n" "t \<in> lang r"
  shows "p @ ''/'' @ a @ ''.'' @ b @ ''/instrument/mca_'' @ n @ t \<in>
         lang (Seq (Star Dot) (Seq (Chr CHR ''/'')
           (Seq (Seq Digits (Seq (Chr CHR ''.'') Digits))
             (Seq (Lit ''/instrument/mca_'') (Seq Digits r)))))"
proof -
  have 1: "n @ t \<in> lang (Seq Digits r)"
    by (rule SeqI [OF Digits_lang [OF assms(4)] assms(5)])
  have 2: "''/instrument/mca_'' @ n @ t \<in> lang (Seq (Lit ''/instrument/mca_'') (Seq Digits r))"
    by (rule SeqI [OF _ 1]) (simp only: Lit_lang singletonI)
  have 3: "a @ ''.'' @ b \<in> lang (Seq Digits (Seq (Chr CHR ''.'') Digits))"
    by (intro SeqI Digits_lang assms) simp
  have 4: "(a @ ''.'' @ b) @ ''/instrument/mca_'' @ n @ t \<in>
      lang (Seq (Seq Digits (Seq (Chr CHR ''.'') Digits))
             (Seq (Lit ''/instrument/mca_'') (Seq Digits r)))"
    using 3 2 by (rule SeqI)
  have 5: "''/'' @ (a @ ''.'' @ b) @ ''/instrument/mca_'' @ n @ t \<in>
      lang (Seq (Chr CHR ''/'') (Seq (Seq Digits (Seq (Chr CHR ''.'') Digits))
             (Seq (Lit ''/instrument/mca_'') (Seq Digits r))))"
    using _ 4 by (rule SeqI) simp
  have "p @ ''/'' @ (a @ ''.'' @ b) @ ''/instrument/mca_'' @ n @ t \<in>
      lang (Seq (Star Dot) (Seq (Chr CHR ''/'') (Seq (Seq Digits (Seq (Chr CHR ''.'') Digits))
             (Seq (Lit ''/instrument/mca_'') (Seq Digits r)))))"
    using star_Dot [OF assms(1)] 5 by (rule SeqI)
  then show ?thesis by simp
qed

lemma dataset_alias_slash:
  assumes "newline \<notin> set p" "is_digits a" "is_digits b" "is_digits n"
  shows "re_match_dollar dataset_alias_re
           (p @ ''/'' @ a @ ''.'' @ b @ ''/instrument/mca_'' @ n @ ''/data'')"
proof -
  have "''/'' @ ''data'' \<in> lang (Seq (Opt (Chr CHR ''/'')) (Lit ''data''))"
    by (intro SeqI) (simp_all only: Lit_lang Opt_lang, simp_all)
  then have "''/data'' \<in> lang (Seq (Opt (Chr CHR ''/'')) (Lit ''data''))" by simp
  from scan_mca_prefix_lang [OF assms this] show ?thesis
    by (simp add: re_match_dollar_def fullmatch_lang dataset_alias_re_def)
qed

lemma dataset_alias_noslash:
  assumes "newline \<notin> set p" "is_digits a" "is_digits b" "is_digits n"
  shows "re_match_dollar dataset_alias_re
           (p @ ''/'' @ a @ ''.'' @ b @ ''/instrument/mca_'' @ n @ ''data'')"
proof -
  have "[] @ ''data'' \<in> lang (Seq (Opt (Chr CHR ''/'')) (Lit ''data''))"
    by (intro SeqI) (simp_all only: Lit_lang Opt_lang, simp_all)
  then have "''data'' \<in> lang (Seq (Opt (Chr CHR ''/'')) (Lit ''data''))" by simp
  from scan_mca_prefix_lang [OF assms this] show ?thesis
    by (simp add: re_match_dollar_def fullmatch_lang dataset_alias_re_def)
qed

subsection \<open>A matching path contains the word instrument\<close>

lemma in_lang_SeqE:
  "w \<in> lang (Seq r s) \<Longrightarrow> \<exists>u v. w = u @ v \<and> u \<in> lang r \<and> v \<in> lang s"
  by (simp add: in_conc)

lemma alias_lang_sublist:
  assumes "w \<in> lang (Seq (Star Dot) (Seq (Chr CHR ''/'')
             (Seq (Seq Digits (Seq (Chr CHR ''.'') Digits))
               (Seq (Lit ''/instrument/mca_'') r))))"
  shows "sublist ''instrument'' w"
proof -
  from assms obtain u1 v1 where w: "w = u1 @ v1"
    and "v1 \<in> lang (Seq (Chr CHR ''/'') (Seq (Seq Digits (Seq (Chr CHR ''.'') Digits))
               (Seq (Lit ''/instrument/mca_'') r)))"
    using in_lang_SeqE by blast
  then obtain u2 v2 where v1: "v1 = u2 @ v2"
    and "v2 \<in> lang (Seq (Seq Digits (Seq (Chr CHR ''.'') Digits)) (Seq (Lit ''/instrument/mca_'') r))"
    using in_lang_SeqE by blast
  then obtain u3 v3 where v2: "v2 = u3 @ v3"
    and "v3 \<in> lang (Seq (Lit ''/instrument/mca_'') r)"
    using in_lang_SeqE by blast
  then obtain u4 v4 where v3: "v3 = u4 @ v4" and "u4 \<in> lang (Lit ''/instrument/mca_'')"
    using in_lang_SeqE by blast
  then have "u4 = ''/'' @ ''instrument'' @ ''/mca_''"
    by (simp only: Lit_lang) simp
  with w v1 v2 v3 have "w = (u1 @ u2 @ u3 @ ''/'') @ ''instrument'' @ (''/mca_'' @ v4)"
    by simp
  then show ?thesis unfolding sublist_def by blast
qed

lemma sublist_append_right: "sublist xs ys \<Longrightarrow> sublist xs (ys @ zs)"
proof -
  assume "sublist xs ys"
  then obtain a b where "ys = a @ xs @ b" unfolding sublist_def by blast
  then have "ys @ zs = a @ xs @ (b @ zs)" by simp
  then show ?thesis unfolding sublist_def by blast
qed

lemma re_match_sublist:
  assumes "re_match_dollar dataset_alias_re s \<or> re_match_dollar group_alias_re s"
  shows "sublist ''instrument'' s"
proof -
  have "\<exists>w t. s = w @ t \<and> (w \<in> lang dataset_alias_re \<or> w \<in> lang group_alias_re)"
  proof (cases "fullmatch dataset_alias_re s \<or> fullmatch group_alias_re s")
    case True
    then have "s = s @ [] \<and> (s \<in> lang dataset_alias_re \<or> s \<in> lang group_alias_re)"
      by (simp add: fullmatch_lang)
    then show ?thesis by blast
  next
    case False
    with assms have "s \<noteq> []"
      and "butlast s \<in> lang dataset_alias_re \<or> butlast s \<in> lang group_alias_re"
      by (auto simp: re_match_dollar_def fullmatch_lang)
    then have "s = butlast s @ [last s] \<and>
        (butlast s \<in> lang dataset_alias_re \<or> butlast s \<in> lang group_alias_re)"
      by simp
    then show ?thesis by blast
  qed
  then obtain w t where s: "s = w @ t"
    and "w \<in> lang dataset_alias_re \<or> w \<in> lang group_alias_re" by blast
  then have "sublist ''instrument'' w"
    unfolding dataset_alias_re_def group_alias_re_def using alias_lang_sublist by blast
  with s show ?thesis by (simp add: sublist_append_right)
qed

section \<open>String replacement\<close>

lemma str_replace_Nil: "old \<noteq> [] \<Longrightarrow> str_replace [] old new = []"
  by (simp add: str_replace.simps)

lemma str_replace_Cons:
  "old \<noteq> [] \<Longrightarrow> str_replace (c # cs) old new =
     (if prefix old (c # cs) then new @ str_replace (drop (length old) (c # cs)) old new
      else c # str_replace cs old new)"
  by (subst str_replace.simps) simp

lemma str_replace_length:
  "old \<noteq> [] \<Longrightarrow> length old \<le> length new \<Longrightarrow> length s \<le> length (str_replace s old new)"
proof (induction s old new rule: str_replace.induct)
  case (1 s old new)
  show ?case
  proof (cases s)
    case Nil
    then show ?thesis by simp
  next
    case (Cons c cs)
    show ?thesis
    proof (cases "prefix old s")
      case True
      with 1 Cons have "length (drop (length old) s) \<le> length (str_replace (drop (length old) s) old new)"
        by simp
      moreover have "str_replace s old new = new @ str_replace (drop (length old) s) old new"
        using True Cons 1(3) by (simp add: str_replace_Cons)
      ultimately show ?thesis using 1(4) by simp
    next
      case False
      with 1 Cons have "length cs \<le> length (str_replace cs old new)" by simp
      moreover have "str_replace s old new = c # str_replace cs old new"
        using False Cons 1(3) by (simp add: str_replace_Cons)
      ultimately show ?thesis using Cons by simp
    qed
  qed
qed

lemma sublist_Cons_not_prefix:
  "sublist old (c # cs) \<Longrightarrow> \<not> prefix old (c # cs) \<Longrightarrow> sublist old cs"
  using sublist_Cons_right [of old c cs] by blast

lemma str_replace_longer:
  "old \<noteq> [] \<Longrightarrow> length old < length new \<Longrightarrow> sublist old s \<Longrightarrow>
     length s < length (str_replace s old new)"
proof (induction s)
  case Nil
  then show ?case by simp
next
  case (Cons c cs)
  note nonempty = Cons.prems(1) and shorter = Cons.prems(2)
  show ?case
  proof (cases "prefix old (c # cs)")
    case True
    define rest where "rest = drop (length old) (c # cs)"
    from shorter have "length old \<le> length new" by simp
    with nonempty have 1: "length rest \<le> length (str_replace rest old new)"
      by (rule str_replace_length)
    have "length old \<le> length (c # cs)"
      using True by (rule prefix_length_le)
    then have 2: "length (c # cs) = length old + length rest"
      unfolding rest_def by simp
    have "str_replace (c # cs) old new = new @ str_replace rest old new"
      unfolding rest_def using True str_replace_Cons [OF nonempty, of c cs new]
      by (simp only: if_True)
    then have "length (str_replace (c # cs) old new) = length new + length (str_replace rest old new)"
      by (simp only: length_append)
    with 1 2 shorter show ?thesis by linarith
  next
    case False
    with Cons.prems(3) have "sublist old cs" by (rule sublist_Cons_not_prefix)
    with nonempty shorter have 3: "length cs < length (str_replace cs old new)"
      by (rule Cons.IH)
    have "str_replace (c # cs) old new = c # str_replace cs old new"
      using False str_replace_Cons [OF nonempty, of c cs new]
      by (simp only: if_False)
    then have "length (str_replace (c # cs) old new) = Suc (length (str_replace cs old new))"
      by (simp only: list.size)
    with 3 show ?thesis by simp
  qed
qed

lemma str_replace_absent: "old \<noteq> [] \<Longrightarrow> hd old \<notin> set s \<Longrightarrow> str_replace s old new = s"
proof (induction s)
  case Nil
  then show ?case by (simp add: str_replace_Nil)
next
  case (Cons c cs)
  then have "\<not> prefix old (c # cs)"
    by (cases old) auto
  with Cons show ?case by (simp add: str_replace_Cons)
qed

lemma str_replace_first:
  "old \<noteq> [] \<Longrightarrow> hd old \<notin> set p \<Longrightarrow>
     str_replace (p @ old @ t) old new = p @ new @ str_replace t old new"
proof (induction p)
  case Nil
  then show ?case
    by (cases old) (simp_all add: str_replace_Cons)
next
  case (Cons c p)
  then have "\<not> prefix old ((c # p) @ old @ t)"
    by (cases old) auto
  with Cons show ?case by (simp add: str_replace_Cons)
qed

lemma alias_link_name_differs:
  assumes "re_match_dollar dataset_alias_re s \<or> re_match_dollar group_alias_re s"
  shows "str_replace s ''instrument'' ''measurement'' \<noteq> s"
proof -
  have "length s < length (str_replace s ''instrument'' ''measurement'')"
    using re_match_sublist [OF assms] by (intro str_replace_longer) simp_all
  then show ?thesis by auto
qed

lemma info_link_name_differs: "str_replace s ''instrument'' ''measurement'' @ ''/info'' \<noteq> s"
proof -
  have "length s \<le> length (str_replace s ''instrument'' ''measurement'')"
    by (intro str_replace_length) simp_all
  then have "length (str_replace s ''instrument'' ''measurement'' @ ''/info'') \<noteq> length s"
    by simp
  then show ?thesis by metis
qed

subsection \<open>Replacement stops at a character foreign to the word\<close>

lemma prefix_before_foreign:
  assumes "c \<notin> set old" and "prefix old (u @ c # v)"
  shows "prefix old u"
proof -
  from assms(2) consider "prefix old u" | z where "old = u @ z" "prefix z (c # v)"
    unfolding prefix_append by blast
  then show ?thesis
  proof cases
    case 1
    then show ?thesis .
  next
    case 2
    show ?thesis
    proof (cases z)
      case Nil
      with 2 show ?thesis by simp
    next
      case (Cons y ys)
      with 2 have "y = c" by simp
      with 2 Cons assms(1) show ?thesis by simp
    qed
  qed
qed

lemma str_replace_split:
  assumes "old \<noteq> []" and "c \<notin> set old"
  shows "str_replace (u @ c # v) old new = str_replace u old new @ c # str_replace v old new"
proof (induction u rule: length_induct)
  case (1 u)
  show ?case
  proof (cases u)
    case Nil
    from assms have "\<not> prefix old (c # v)" by (cases old) auto
    with Nil assms(1) show ?thesis by (simp add: str_replace_Cons str_replace_Nil)
  next
    case (Cons x u')
    show ?thesis
    proof (cases "prefix old (u @ c # v)")
      case True
      with assms(2) have pu: "prefix old u" by (rule prefix_before_foreign)
      then have len: "length old \<le> length u" by (rule prefix_length_le)
      define rest where "rest = drop (length old) u"
      from len assms(1) Cons have "length rest < length u"
        unfolding rest_def by (cases old) simp_all
      with 1 have IH: "str_replace (rest @ c # v) old new
          = str_replace rest old new @ c # str_replace v old new" by blast
      from len have d: "drop (length old) (u @ c # v) = rest @ c # v"
        unfolding rest_def by simp
      have "str_replace (u @ c # v) old new = new @ str_replace (rest @ c # v) old new"
        using True str_replace_Cons [OF assms(1), of x "u' @ c # v" new] Cons d by simp
      moreover have "str_replace u old new = new @ str_replace rest old new"
        using pu str_replace_Cons [OF assms(1), of x u' new] Cons rest_def by simp
      ultimately show ?thesis using IH by simp
    next
      case False
      then have npu: "\<not> prefix old u" using prefix_prefix by blast
      from Cons 1 have IH: "str_replace (u' @ c # v) old new
          = str_replace u' old new @ c # str_replace v old new" by simp
      have "str_replace (u @ c # v) old new = x # str_replace (u' @ c # v) old new"
        using False str_replace_Cons [OF assms(1), of x "u' @ c # v" new] Cons by simp
      moreover have "str_replace u old new = x # str_replace u' old new"
        using npu str_replace_Cons [OF assms(1), of x u' new] Cons by simp
      ultimately show ?thesis using IH by simp
    qed
  qed
qed

lemma is_digits_no_i: "is_digits ds \<Longrightarrow> CHR ''i'' \<notin> set ds"
proof
  assume "is_digits ds" and "CHR ''i'' \<in> set ds"
  then have "CHR ''i'' \<in> set ''0123456789''"
    unfolding is_digits_def list_all_iff by blast
  then show False by simp
qed

lemma instrument_replaced:
  "str_replace ''instrument'' ''instrument'' ''measurement'' = ''measurement''"
  by (simp add: str_replace_Cons str_replace_Nil)

lemma scan_mca_link_name:
  assumes "is_digits a" "is_digits b" "is_digits n" "CHR ''i'' \<notin> set t"
  shows "str_replace (p @ ''/'' @ a @ ''.'' @ b @ ''/instrument/mca_'' @ n @ t)
            ''instrument'' ''measurement''
         = str_replace p ''instrument'' ''measurement''
             @ ''/'' @ a @ ''.'' @ b @ ''/measurement/mca_'' @ n @ t"
proof -
  let ?r = "\<lambda>s. str_replace s ''instrument'' ''measurement''"
  have ne: "''instrument'' \<noteq> []" and sl: "CHR ''/'' \<notin> set ''instrument''" by simp_all
  have split: "?r (u @ CHR ''/'' # v) = ?r u @ CHR ''/'' # ?r v" for u v
    by (rule str_replace_split [OF ne sl])
  have "CHR ''i'' \<notin> set (a @ ''.'' @ b)"
    using assms(1,2) is_digits_no_i by simp
  then have 1: "?r (a @ ''.'' @ b) = a @ ''.'' @ b"
    by (intro str_replace_absent) simp_all
  have "CHR ''i'' \<notin> set (''mca_'' @ n @ t)"
    using assms(3,4) is_digits_no_i by simp
  then have 3: "?r (''mca_'' @ n @ t) = ''mca_'' @ n @ t"
    by (intro str_replace_absent) simp_all
  have shape: "p @ ''/'' @ a @ ''.'' @ b @ ''/instrument/mca_'' @ n @ t
      = p @ CHR ''/'' # ((a @ ''.'' @ b) @ CHR ''/'' # (''instrument'' @ CHR ''/'' # (''mca_'' @ n @ t)))"
    by simp
  have "?r (p @ ''/'' @ a @ ''.'' @ b @ ''/instrument/mca_'' @ n @ t)
      = ?r p @ CHR ''/'' # ((a @ ''.'' @ b) @ CHR ''/'' # (''measurement'' @ CHR ''/'' # (''mca_'' @ n @ t)))"
    unfolding shape split 1 3 instrument_replaced ..
  then show ?thesis by simp
qed

section \<open>Steps of the converter\<close>

subsection \<open>Container and link creation\<close>

lemma h5f_log [simp]: "h5f (log lvl msg st) = h5f st"
  by (simp add: log_def)

lemma h5f_del_member [simp]: "h5f (del_member name st) = (h5f st)(name := None)"
  by (simp add: del_member_def)

lemma h5f_set_member [simp]: "h5f (set_member name m st) = (h5f st)(name \<mapsto> m)"
  by (simp add: set_member_def)

lemma contains_log [simp]: "contains (log lvl msg st) name = contains st name"
  by (simp add: contains_def)

lemma final_env_simps [simp]:
  "final_env (Inl (e, st)) = st" "final_env (Inr st) = st"
  by (simp_all add: final_env_def)

lemma create_link_other:
  "q \<noteq> link_name \<Longrightarrow>
     h5f (final_env (create_link overwrite_data link_type link_name target st)) q = h5f st q"
  by (simp add: create_link_def)

lemma create_link_valid:
  assumes "link_type = ''hard'' \<or> link_type = ''soft''"
    and "overwrite_data \<or> \<not> contains st link_name"
  shows "\<exists>st'. create_link overwrite_data link_type link_name target st = Inr st' \<and>
           h5f st' = (h5f st)(link_name \<mapsto>
             (if link_type = ''hard'' then HardLink target else SoftLink target))"
  using assms by (auto simp: create_link_def)


subsection \<open>Dataset nodes\<close>

lemma append_dataset_created:
  assumes "overwrite_data \<or> \<not> contains st h5_name"
  shows "append_dataset overwrite_data link_type create_dataset_args h5_name shp d st =
     (let st3 = create_dataset h5_name d (if shp = [] then [] else create_dataset_args)
                  (if contains st h5_name
                   then del_member h5_name
                          (log WARNING (''Overwriting dataset: '' @ h5_name)
                             (log DEBUG (''Saving dataset: '' @ h5_name) st))
                   else log DEBUG (''Saving dataset: '' @ h5_name) st)
      in if re_match_dollar dataset_alias_re h5_name
         then create_link overwrite_data link_type
                (str_replace h5_name ''instrument'' ''measurement'') h5_name st3
         else Inr st3)"
proof (cases "contains st h5_name")
  case True
  with assms have "overwrite_data" by simp
  with True show ?thesis
    by (simp add: append_dataset_def Let_def split: sum.splits)
next
  case False
  then show ?thesis
    by (simp add: append_dataset_def Let_def split: sum.splits)
qed


lemma append_dataset_written:
  assumes "overwrite_data \<or> \<not> contains st h5_name"
  shows "h5f (final_env (append_dataset overwrite_data link_type create_dataset_args
                           h5_name shp d st)) h5_name
           = Some (H5Dataset d (if shp = [] then [] else create_dataset_args))"
proof (cases "re_match_dollar dataset_alias_re h5_name")
  case True
  then have "h5_name \<noteq> str_replace h5_name ''instrument'' ''measurement''"
    using alias_link_name_differs [of h5_name] by auto
  with True show ?thesis
    by (simp add: append_dataset_created [OF assms] Let_def create_link_other create_dataset_def)
next
  case False
  then show ?thesis
    by (simp add: append_dataset_created [OF assms] Let_def create_dataset_def)
qed

subsection \<open>Group nodes\<close>

lemma append_group_created:
  assumes "\<not> contains st h5_name"
  shows "append_group overwrite_data link_type h5_name st =
     (let st1 = create_group h5_name (log DEBUG (''Creating group: '' @ h5_name) st)
      in if re_match_dollar group_alias_re h5_name
         then create_link overwrite_data link_type
                (str_replace h5_name ''instrument'' ''measurement'' @ ''/info'') h5_name st1
         else Inr st1)"
  using assms by (simp add: append_group_def Let_def)

lemma append_group_existing:
  assumes "contains st h5_name"
  shows "append_group overwrite_data link_type h5_name st =
     (if re_match_dollar group_alias_re h5_name then Inl (UnboundLocalError, st) else Inr st)"
  using assms by (simp add: append_group_def Let_def)

subsection \<open>The traversal\<close>



lemma write_spec_to_h5_instances:
  "write_spec_to_h5 ext (SpecInstance items) H5Instance h5path h5_file_mode overwrite_data
       link_type create_dataset_args st
     = visititems
         (append_spec_member_to_h5 (if endswith h5path ''/'' then h5path else h5path @ ''/'')
            overwrite_data link_type
            (case create_dataset_args of None \<Rightarrow> [] | Some kw \<Rightarrow> kw))
         items st"
  by (simp add: write_spec_to_h5_def Let_def split: sum.splits)

subsection \<open>Derived links of dataset nodes\<close>

lemma append_dataset_links:
  assumes m: "re_match_dollar dataset_alias_re h5_name"
    and created: "overwrite_data \<or> \<not> contains st h5_name"
    and valid: "link_type = ''hard'' \<or> link_type = ''soft''"
    and free: "overwrite_data \<or> \<not> contains st (str_replace h5_name ''instrument'' ''measurement'')"
  shows "\<exists>st'. append_dataset overwrite_data link_type create_dataset_args h5_name shp d st = Inr st'
           \<and> h5f st' = (h5f st)
                (h5_name \<mapsto> H5Dataset d (if shp = [] then [] else create_dataset_args),
                 str_replace h5_name ''instrument'' ''measurement'' \<mapsto>
                   (if link_type = ''hard'' then HardLink h5_name else SoftLink h5_name))"
proof -
  let ?link = "str_replace h5_name ''instrument'' ''measurement''"
  let ?st2 = "if contains st h5_name
              then del_member h5_name
                     (log WARNING (''Overwriting dataset: '' @ h5_name)
                        (log DEBUG (''Saving dataset: '' @ h5_name) st))
              else log DEBUG (''Saving dataset: '' @ h5_name) st"
  let ?st3 = "create_dataset h5_name d (if shp = [] then [] else create_dataset_args) ?st2"
  have ne: "?link \<noteq> h5_name"
    using alias_link_name_differs [of h5_name] m by simp
  have h3: "h5f ?st3 = (h5f st)(h5_name \<mapsto> H5Dataset d (if shp = [] then [] else create_dataset_args))"
    by (simp add: create_dataset_def)
  with ne free have "overwrite_data \<or> \<not> contains ?st3 ?link"
    by (simp add: contains_def)
  from create_link_valid [OF valid this, of h5_name]
  obtain st' where r: "create_link overwrite_data link_type ?link h5_name ?st3 = Inr st'"
    and "h5f st' = (h5f ?st3)(?link \<mapsto>
             (if link_type = ''hard'' then HardLink h5_name else SoftLink h5_name))"
    by blast
  with h3 have "h5f st' = (h5f st)
        (h5_name \<mapsto> H5Dataset d (if shp = [] then [] else create_dataset_args),
         ?link \<mapsto> (if link_type = ''hard'' then HardLink h5_name else SoftLink h5_name))"
    by simp
  moreover have "append_dataset overwrite_data link_type create_dataset_args h5_name shp d st
      = Inr st'"
    using m r by (simp only: append_dataset_created [OF created] Let_def if_True)
  ultimately show ?thesis by blast
qed

lemma append_member_dataset:
  "append_spec_member_to_h5 h5path overwrite_data link_type create_dataset_args spec_h5_name
       (SpecFileH5Dataset shp d) st
     = append_dataset overwrite_data link_type create_dataset_args
         (h5path @ lstrip spec_h5_name ''/'') shp d st"
  by (simp add: append_spec_member_to_h5_def)

lemma append_member_group:
  "append_spec_member_to_h5 h5path overwrite_data link_type create_dataset_args spec_h5_name
       SpecFileH5Group st
     = append_group overwrite_data link_type (h5path @ lstrip spec_h5_name ''/'') st"
  by (simp add: append_spec_member_to_h5_def)

lemma mca_dataset_link:
  assumes p: "newline \<notin> set p" and digits: "is_digits a" "is_digits b" "is_digits n"
    and t: "t = ''data'' \<or> t = ''/data''"
    and path: "h5_name = p @ ''/'' @ a @ ''.'' @ b @ ''/instrument/mca_'' @ n @ t"
    and link: "link_name = str_replace p ''instrument'' ''measurement''
                  @ ''/'' @ a @ ''.'' @ b @ ''/measurement/mca_'' @ n @ t"
    and created: "overwrite_data \<or> \<not> contains st h5_name"
    and valid: "link_type = ''hard'' \<or> link_type = ''soft''"
    and free: "overwrite_data \<or> \<not> contains st link_name"
  shows "re_match_dollar dataset_alias_re h5_name
       \<and> str_replace h5_name ''instrument'' ''measurement'' = link_name
       \<and> (\<exists>st'. append_dataset overwrite_data link_type create_dataset_args h5_name shp d st
                   = Inr st'
              \<and> h5f st' = (h5f st)
                   (h5_name \<mapsto> H5Dataset d (if shp = [] then [] else create_dataset_args),
                    link_name \<mapsto>
                      (if link_type = ''hard'' then HardLink h5_name else SoftLink h5_name)))"
proof -
  have m: "re_match_dollar dataset_alias_re h5_name"
    using t dataset_alias_slash [OF p digits] dataset_alias_noslash [OF p digits]
    unfolding path by blast
  have "CHR ''i'' \<notin> set t" using t by auto
  from scan_mca_link_name [OF digits this, of p]
  have l: "str_replace h5_name ''instrument'' ''measurement'' = link_name"
    unfolding path link .
  from append_dataset_links [OF m created valid, of create_dataset_args shp d] free l m
  show ?thesis by simp
qed

subsection \<open>Where a node raises the configuration error\<close>

lemma h5f_create_group: "h5f (create_group name st) = (h5f st)(name \<mapsto> H5Group)"
  by (simp add: create_group_def)

lemma contains_create_group:
  "contains (create_group name st) q = (q = name \<or> contains st q)"
  by (simp add: create_group_def contains_def)

lemma fun_upd_None_absent: "m k = None \<Longrightarrow> m(k := None) = m"
  by (rule ext) simp



lemma create_link_h5f:
  "h5f (final_env (create_link overwrite_data link_type link_name target st))
     = (if contains st link_name \<and> \<not> overwrite_data then h5f st
        else if link_type = ''hard'' then (h5f st)(link_name \<mapsto> HardLink target)
        else if link_type = ''soft'' then (h5f st)(link_name \<mapsto> SoftLink target)
        else (h5f st)(link_name := None))"
proof (cases "contains st link_name")
  case True
  then show ?thesis by (simp add: create_link_def)
next
  case False
  then have "(h5f st)(link_name := None) = h5f st"
    by (simp add: contains_def fun_upd_None_absent)
  with False show ?thesis by (simp add: create_link_def)
qed

lemma create_link_completes:
  assumes "(contains st link_name \<and> \<not> overwrite_data)
           \<or> link_type = ''hard'' \<or> link_type = ''soft''"
  shows "\<exists>st'. create_link overwrite_data link_type link_name target st = Inr st'"
  using assms by (auto simp: create_link_def)



subsection \<open>Where a traversal raises\<close>





subsection \<open>Paths of the SpecFile layout\<close>

lemma group_alias_shape:
  assumes "newline \<notin> set p" "is_digits a" "is_digits b" "is_digits n"
  shows "re_match_dollar group_alias_re (p @ ''/'' @ a @ ''.'' @ b @ ''/instrument/mca_'' @ n)"
proof -
  have "[] \<in> lang (Opt (Chr CHR ''/''))" by (simp add: Opt_lang)
  from scan_mca_prefix_lang [OF assms this] show ?thesis
    by (simp add: re_match_dollar_def fullmatch_lang group_alias_re_def)
qed

lemma one_digit: "is_digits ''0''" "is_digits ''1''" "is_digits ''2''" "is_digits ''3''"
  by (simp_all add: is_digits_def)

lemma ex_data_match: "re_match_dollar dataset_alias_re ''/1.1/instrument/mca_0/data''"
  using dataset_alias_slash [of "[]" "''1''" "''1''" "''0''"] by (simp add: one_digit)

lemma ex_data_link:
  "str_replace ''/1.1/instrument/mca_0/data'' ''instrument'' ''measurement''
     = ''/1.1/measurement/mca_0/data''"
  using scan_mca_link_name [of "''1''" "''1''" "''0''" "''/data''" "[]"]
  by (simp add: one_digit str_replace_Nil)

lemma ex_group_match: "re_match_dollar group_alias_re ''/1.1/instrument/mca_0''"
  using group_alias_shape [of "[]" "''1''" "''1''" "''0''"] by (simp add: one_digit)

lemma ex_group_link:
  "str_replace ''/1.1/instrument/mca_0'' ''instrument'' ''measurement''
     = ''/1.1/measurement/mca_0''"
  using scan_mca_link_name [of "''1''" "''1''" "''0''" "[]" "[]"]
  by (simp add: one_digit str_replace_Nil)


lemma ex_scan_no_match: "\<not> re_match_dollar group_alias_re ''/1.1''"
  by (simp add: re_match_dollar_def group_alias_re_def Digits_def Plus_def Opt_def newline_def)

lemma ex_instrument_no_match: "\<not> re_match_dollar group_alias_re ''/1.1/instrument''"
  by (simp add: re_match_dollar_def group_alias_re_def Digits_def Plus_def Opt_def newline_def)

section \<open>Where an unknown link type is detected\<close>




section \<open>Converting twice without overwriting\<close>

text \<open>
  C2 holds except where the code slips: the second conversion of a source into the target
  the first one produced, with \<open>overwrite_data\<close> false, is to skip every node. For a scan
  with an MCA detector it raises instead: the group \<^verbatim>\<open>/1.1/instrument/mca_0\<close> exists, so
  \<^verbatim>\<open>grp\<close> is not bound, its path matches the group pattern, and
  \<^verbatim>\<open>create_link(link_name, grp)\<close> raises \<^verbatim>\<open>UnboundLocalError\<close>. The target is unchanged
  when the error surfaces.
\<close>

theorem second_conversion_raises:
  "write_spec_to_h5 no_opener (SpecInstance mca_scan) H5Instance ''/'' ''a'' False ''hard'' None
       empty_env
     = Inr converted_mca_scan
   \<and> write_spec_to_h5 no_opener (SpecInstance mca_scan) H5Instance ''/'' ''a'' False ''hard'' None
       converted_mca_scan
     = Inl (UnboundLocalError, converted_mca_scan)"
proof -
  let ?f = "append_spec_member_to_h5 ''/'' False ''hard'' []"
  have first: "visititems ?f mca_scan empty_env = Inr converted_mca_scan"
    by (simp add: mca_scan_def append_member_group append_member_dataset lstrip_def
          append_group_def append_dataset_def create_link_def Let_def
          ex_scan_no_match ex_instrument_no_match ex_group_match ex_group_link
          ex_data_match ex_data_link
          contains_def create_group_def create_dataset_def set_member_def log_def
          empty_env_def converted_mca_scan_def)
  have c1: "contains converted_mca_scan ''/1.1''"
    and c2: "contains converted_mca_scan ''/1.1/instrument''"
    and c3: "contains converted_mca_scan ''/1.1/instrument/mca_0''"
    by (simp_all add: contains_def converted_mca_scan_def)
  have second: "visititems ?f mca_scan converted_mca_scan
      = Inl (UnboundLocalError, converted_mca_scan)"
    by (simp add: mca_scan_def append_member_group lstrip_def
          append_group_existing [OF c1] append_group_existing [OF c2]
          append_group_existing [OF c3]
          ex_scan_no_match ex_instrument_no_match ex_group_match)
  from first second show ?thesis
    by (simp add: write_spec_to_h5_instances endswith_def)
qed

section \<open>The alias check of a dataset node\<close>


section \<open>The derived link of an MCA dataset\<close>

text \<open>
  C4 holds except where the code slips: the derived link path is to differ from the
  target path at the matching segment only, but \<^verbatim>\<open>h5_name.replace\<close> rewrites every
  occurrence of \<^verbatim>\<open>instrument\<close> in the whole target path, the mount path included.
  Mounted under \<^verbatim>\<open>/instrument/\<close>, the dataset \<^verbatim>\<open>/1.1/instrument/mca_0/data\<close> gets its
  link at \<^verbatim>\<open>/measurement/1.1/measurement/mca_0/data\<close>, outside the mount path, and
  nothing is placed at \<^verbatim>\<open>/instrument/1.1/measurement/mca_0/data\<close>.
\<close>

theorem link_path_replaces_every_occurrence:
  "h5f (final_env (append_spec_member_to_h5 ''/instrument/'' False ''hard'' []
                     ''/1.1/instrument/mca_0/data'' (SpecFileH5Dataset [1024] 3) empty_env))
       ''/instrument/1.1/measurement/mca_0/data'' = None
   \<and> h5f (final_env (append_spec_member_to_h5 ''/instrument/'' False ''hard'' []
                     ''/1.1/instrument/mca_0/data'' (SpecFileH5Dataset [1024] 3) empty_env))
       ''/measurement/1.1/measurement/mca_0/data''
     = Some (HardLink ''/instrument/1.1/instrument/mca_0/data'')"
proof -
  let ?h5_name = "''/instrument/1.1/instrument/mca_0/data''"
  let ?link = "''/measurement/1.1/measurement/mca_0/data''"
  have p: "newline \<notin> set ''/instrument''" by (simp add: newline_def)
  have t: "''/data'' = ''data'' \<or> ''/data'' = ''/data''" by simp
  have path: "?h5_name = ''/instrument'' @ ''/'' @ ''1'' @ ''.'' @ ''1'' @ ''/instrument/mca_'' @ ''0'' @ ''/data''"
    by simp
  have "str_replace (''/'' @ ''instrument'' @ []) ''instrument'' ''measurement''
      = ''/'' @ ''measurement'' @ str_replace [] ''instrument'' ''measurement''"
    by (rule str_replace_first) simp_all
  then have link: "?link = str_replace ''/instrument'' ''instrument'' ''measurement''
       @ ''/'' @ ''1'' @ ''.'' @ ''1'' @ ''/measurement/mca_'' @ ''0'' @ ''/data''"
    by (simp add: str_replace_Nil)
  have created: "False \<or> \<not> contains empty_env ?h5_name"
    and free: "False \<or> \<not> contains empty_env ?link"
    by (simp_all add: contains_def empty_env_def)
  have valid: "''hard'' = ''hard'' \<or> ''hard'' = ''soft''" by simp
  from mca_dataset_link [OF p one_digit(2) one_digit(2) one_digit(1) t path link created valid free,
      of "[]" "[1024]" 3]
  obtain st' where "append_dataset False ''hard'' [] ?h5_name [1024] 3 empty_env = Inr st'"
    and "h5f st' = (h5f empty_env)(?h5_name \<mapsto> H5Dataset 3 [], ?link \<mapsto> HardLink ?h5_name)"
    by auto
  then show ?thesis
    by (simp add: append_member_dataset lstrip_def empty_env_def)
qed

section \<open>The collision policy of dataset nodes\<close>


section \<open>Dataset creation options\<close>

text \<open>
  C6. When a dataset node is created on this pass (its target path is absent, or
  \<open>overwrite_data\<close> holds), the member left at the target path records the keyword
  options of the creation call: \<open>create_dataset_args\<close> when the shape is not the empty
  tuple, none at all when the dataset is a scalar. This holds whatever happens afterwards
  in the node's link creation.
\<close>

theorem dataset_options_only_for_non_scalar:
  assumes "overwrite_data \<or> \<not> contains st (h5path @ lstrip spec_h5_name ''/'')"
  shows "h5f (final_env (append_spec_member_to_h5 h5path overwrite_data link_type
                           create_dataset_args spec_h5_name (SpecFileH5Dataset shp d) st))
           (h5path @ lstrip spec_h5_name ''/'')
         = Some (H5Dataset d (if shp = [] then [] else create_dataset_args))"
  using append_dataset_written [OF assms]
  by (simp add: append_spec_member_to_h5_def)

theorem dataset_options_only_for_non_scalar_witness:
  "\<not> contains empty_env ''/1.1/instrument/mca_0/data''
   \<and> h5f (final_env (append_spec_member_to_h5 ''/'' False ''hard''
                       [(''compression'', ''gzip'')] ''/1.1/instrument/mca_0/data''
                       (SpecFileH5Dataset [] 3) empty_env))
         ''/1.1/instrument/mca_0/data''
       = Some (H5Dataset 3 [])
   \<and> h5f (final_env (append_spec_member_to_h5 ''/'' False ''hard''
                       [(''compression'', ''gzip'')] ''/1.1/instrument/mca_0/data''
                       (SpecFileH5Dataset [1024] 3) empty_env))
         ''/1.1/instrument/mca_0/data''
       = Some (H5Dataset 3 [(''compression'', ''gzip'')])"
proof -
  have c: "False \<or> \<not> contains empty_env (''/'' @ lstrip ''/1.1/instrument/mca_0/data'' ''/'')"
    by (simp add: contains_def empty_env_def lstrip_def)
  from dataset_options_only_for_non_scalar [OF c, of "''hard''" "[(''compression'', ''gzip'')]" "[]" 3]
       dataset_options_only_for_non_scalar [OF c, of "''hard''" "[(''compression'', ''gzip'')]" "[1024]" 3]
       c
  show ?thesis by (simp add: lstrip_def)
qed

section \<open>Group nodes\<close>

text \<open>
  C7, as stated, fails: a group node is never deleted at its own path, but the link
  creation that follows a group node deletes, under \<open>overwrite_data\<close>, whatever member
  sits at the derived path, a group included. Here a group at
  \<^verbatim>\<open>/1.1/measurement/mca_0/info\<close> is replaced by the hard link of the group node
  \<^verbatim>\<open>/1.1/instrument/mca_0\<close>.
\<close>

theorem group_node_replaces_group_at_derived_path:
  "h5f (env_of [''/1.1/measurement/mca_0/info'' \<mapsto> H5Group]) ''/1.1/measurement/mca_0/info''
     = Some H5Group
   \<and> h5f (final_env (append_spec_member_to_h5 ''/'' True ''hard'' [] ''/1.1/instrument/mca_0''
                       SpecFileH5Group (env_of [''/1.1/measurement/mca_0/info'' \<mapsto> H5Group])))
       ''/1.1/measurement/mca_0/info''
     = Some (HardLink ''/1.1/instrument/mca_0'')
   \<and> logger (final_env (append_spec_member_to_h5 ''/'' True ''hard'' [] ''/1.1/instrument/mca_0''
                       SpecFileH5Group (env_of [''/1.1/measurement/mca_0/info'' \<mapsto> H5Group])))
     = [(DEBUG, ''Creating group: /1.1/instrument/mca_0''),
        (WARNING, ''Overwriting /1.1/measurement/mca_0/info with link to/1.1/instrument/mca_0'')]"
  by (simp add: append_member_group lstrip_def append_group_def create_link_def Let_def
        ex_group_match ex_group_link
        contains_def create_group_def set_member_def del_member_def log_def env_of_def)

text \<open>
  C7, amended. For every group node and every value of \<open>overwrite_data\<close>: a group is
  created at the node's target path only if nothing is there, and when a member is there
  already the node writes and logs nothing, so that member is neither deleted nor
  recreated; if moreover the path does not match the group pattern this is no error. (For
  an existing member at a matching path the statement says only that the state is left
  as it was; the error raised there is the unbound \<^verbatim>\<open>grp\<close> of C2.) When the group is
  created and its path matches, the member at the derived link path is treated by the
  link collision policy: with \<open>overwrite_data\<close> false an existing member is kept; otherwise
  an existing member, a group included, is deleted and the link of the configured type
  takes its place, or nothing does when the link type is unknown. No other path of the
  target changes.
\<close>

theorem group_node_keeps_own_path:
  "(contains st (h5path @ lstrip spec_h5_name ''/'') \<longrightarrow>
      final_env (append_spec_member_to_h5 h5path overwrite_data link_type create_dataset_args
                   spec_h5_name SpecFileH5Group st) = st)
   \<and> (contains st (h5path @ lstrip spec_h5_name ''/'')
        \<and> \<not> re_match_dollar group_alias_re (h5path @ lstrip spec_h5_name ''/'') \<longrightarrow>
      append_spec_member_to_h5 h5path overwrite_data link_type create_dataset_args
        spec_h5_name SpecFileH5Group st = Inr st)
   \<and> (\<not> contains st (h5path @ lstrip spec_h5_name ''/'') \<longrightarrow>
      h5f (final_env (append_spec_member_to_h5 h5path overwrite_data link_type
                        create_dataset_args spec_h5_name SpecFileH5Group st))
        = (let h5_name = h5path @ lstrip spec_h5_name ''/'';
               link_name = str_replace h5_name ''instrument'' ''measurement'' @ ''/info''
           in if \<not> re_match_dollar group_alias_re h5_name
              then (h5f st)(h5_name \<mapsto> H5Group)
              else if contains st link_name \<and> \<not> overwrite_data
              then (h5f st)(h5_name \<mapsto> H5Group)
              else if link_type = ''hard''
              then (h5f st)(h5_name \<mapsto> H5Group, link_name \<mapsto> HardLink h5_name)
              else if link_type = ''soft''
              then (h5f st)(h5_name \<mapsto> H5Group, link_name \<mapsto> SoftLink h5_name)
              else (h5f st)(h5_name \<mapsto> H5Group, link_name := None)))
   \<and> (\<not> contains st (h5path @ lstrip spec_h5_name ''/'')
        \<and> re_match_dollar group_alias_re (h5path @ lstrip spec_h5_name ''/'')
        \<and> contains st (str_replace (h5path @ lstrip spec_h5_name ''/'')
                          ''instrument'' ''measurement'' @ ''/info'')
        \<and> overwrite_data
        \<and> (link_type = ''hard'' \<or> link_type = ''soft'') \<longrightarrow>
      append_spec_member_to_h5 h5path overwrite_data link_type create_dataset_args
        spec_h5_name SpecFileH5Group st
        = (let h5_name = h5path @ lstrip spec_h5_name ''/'';
               link_name = str_replace h5_name ''instrument'' ''measurement'' @ ''/info''
           in Inr (set_member link_name
                     (if link_type = ''hard'' then HardLink h5_name else SoftLink h5_name)
                     (del_member link_name
                        (log WARNING (''Overwriting '' @ link_name @ '' with link to'' @ h5_name)
                           (create_group h5_name
                              (log DEBUG (''Creating group: '' @ h5_name) st)))))))
   \<and> (\<not> contains st (h5path @ lstrip spec_h5_name ''/'')
        \<and> (\<not> re_match_dollar group_alias_re (h5path @ lstrip spec_h5_name ''/'')
             \<or> (contains st (str_replace (h5path @ lstrip spec_h5_name ''/'')
                               ''instrument'' ''measurement'' @ ''/info'')
                 \<and> \<not> overwrite_data)
             \<or> link_type = ''hard'' \<or> link_type = ''soft'') \<longrightarrow>
      (\<exists>st'. append_spec_member_to_h5 h5path overwrite_data link_type create_dataset_args
                spec_h5_name SpecFileH5Group st = Inr st'))"
proof -
  let ?h = "h5path @ lstrip spec_h5_name ''/''"
  let ?l = "str_replace ?h ''instrument'' ''measurement'' @ ''/info''"
  let ?st1 = "create_group ?h (log DEBUG (''Creating group: '' @ ?h) st)"
  let ?r = "append_spec_member_to_h5 h5path overwrite_data link_type create_dataset_args
              spec_h5_name SpecFileH5Group st"
  have r: "?r = append_group overwrite_data link_type ?h st"
    by (rule append_member_group)
  have ne: "?l \<noteq> ?h" by (rule info_link_name_differs)
  have existing: "final_env ?r = st" if "contains st ?h"
    using that by (simp add: r append_group_existing)
  have collision: "?r = Inr st" if "contains st ?h" "\<not> re_match_dollar group_alias_re ?h"
    using that by (simp add: r append_group_existing)
  have created: "h5f (final_env ?r)
        = (if \<not> re_match_dollar group_alias_re ?h then (h5f st)(?h \<mapsto> H5Group)
           else if contains st ?l \<and> \<not> overwrite_data then (h5f st)(?h \<mapsto> H5Group)
           else if link_type = ''hard'' then (h5f st)(?h \<mapsto> H5Group, ?l \<mapsto> HardLink ?h)
           else if link_type = ''soft'' then (h5f st)(?h \<mapsto> H5Group, ?l \<mapsto> SoftLink ?h)
           else (h5f st)(?h \<mapsto> H5Group, ?l := None))"
    if "\<not> contains st ?h"
    using that ne
    by (simp add: r append_group_created Let_def create_link_h5f
          h5f_create_group contains_create_group)
  have replaced: "?r = Inr (set_member ?l
                     (if link_type = ''hard'' then HardLink ?h else SoftLink ?h)
                     (del_member ?l
                        (log WARNING (''Overwriting '' @ ?l @ '' with link to'' @ ?h) ?st1)))"
    if "\<not> contains st ?h" "re_match_dollar group_alias_re ?h" "contains st ?l"
      "overwrite_data" "link_type = ''hard'' \<or> link_type = ''soft''"
  proof -
    from that show ?thesis
      by (auto simp: append_member_group append_group_created Let_def create_link_def
            contains_create_group)
  qed
  have completes: "\<exists>st'. ?r = Inr st'"
    if "\<not> contains st ?h"
      and "\<not> re_match_dollar group_alias_re ?h \<or> (contains st ?l \<and> \<not> overwrite_data)
           \<or> link_type = ''hard'' \<or> link_type = ''soft''"
  proof (cases "re_match_dollar group_alias_re ?h")
    case False
    with that(1) show ?thesis by (simp add: r append_group_created Let_def)
  next
    case True
    with that(2) ne have "(contains ?st1 ?l \<and> \<not> overwrite_data)
        \<or> link_type = ''hard'' \<or> link_type = ''soft''"
      by (auto simp: contains_create_group)
    from create_link_completes [OF this, of ?h] True that(1) show ?thesis
      by (simp add: r append_group_created Let_def)
  qed
  from existing collision created replaced completes show ?thesis
    unfolding Let_def by blast
qed

theorem group_node_keeps_own_path_witness:
  "contains (env_of [''/1.1'' \<mapsto> H5Dataset 7 []]) ''/1.1''
   \<and> \<not> re_match_dollar group_alias_re ''/1.1''
   \<and> append_spec_member_to_h5 ''/'' True ''hard'' [] ''/1.1'' SpecFileH5Group
         (env_of [''/1.1'' \<mapsto> H5Dataset 7 []])
       = Inr (env_of [''/1.1'' \<mapsto> H5Dataset 7 []])
   \<and> \<not> contains (env_of [''/1.1/measurement/mca_0/info'' \<mapsto> H5Group]) ''/1.1/instrument/mca_0''
   \<and> re_match_dollar group_alias_re ''/1.1/instrument/mca_0''
   \<and> contains (env_of [''/1.1/measurement/mca_0/info'' \<mapsto> H5Group])
        ''/1.1/measurement/mca_0/info''
   \<and> append_spec_member_to_h5 ''/'' True ''soft'' [] ''/1.1/instrument/mca_0'' SpecFileH5Group
         (env_of [''/1.1/measurement/mca_0/info'' \<mapsto> H5Group])
       = Inr (set_member ''/1.1/measurement/mca_0/info'' (SoftLink ''/1.1/instrument/mca_0'')
               (del_member ''/1.1/measurement/mca_0/info''
                  (log WARNING
                     ''Overwriting /1.1/measurement/mca_0/info with link to/1.1/instrument/mca_0''
                     (create_group ''/1.1/instrument/mca_0''
                        (log DEBUG ''Creating group: /1.1/instrument/mca_0''
                           (env_of [''/1.1/measurement/mca_0/info'' \<mapsto> H5Group]))))))
   \<and> h5f (final_env (append_spec_member_to_h5 ''/'' False ''soft'' [] ''/1.1/instrument/mca_0''
                       SpecFileH5Group (env_of [''/1.1/measurement/mca_0/info'' \<mapsto> H5Group])))
       ''/1.1/measurement/mca_0/info'' = Some H5Group"
proof -
  let ?old = "env_of [''/1.1'' \<mapsto> H5Dataset 7 []]"
  let ?st = "env_of [''/1.1/measurement/mca_0/info'' \<mapsto> H5Group]"
  have c: "contains ?old ''/1.1''" by (simp add: contains_def env_of_def)
  have a: "\<not> contains ?st ''/1.1/instrument/mca_0''"
    and l: "contains ?st ''/1.1/measurement/mca_0/info''"
    by (simp_all add: contains_def env_of_def)
  have p1: "''/'' @ lstrip ''/1.1'' ''/'' = ''/1.1''"
    and p2: "''/'' @ lstrip ''/1.1/instrument/mca_0'' ''/'' = ''/1.1/instrument/mca_0''"
    by (simp_all add: lstrip_def)
  note old = group_node_keeps_own_path [where h5path = "''/''" and spec_h5_name = "''/1.1''"
      and overwrite_data = True and link_type = "''hard''" and create_dataset_args = "[]"
      and st = ?old, unfolded p1]
  note new = group_node_keeps_own_path [where h5path = "''/''"
      and spec_h5_name = "''/1.1/instrument/mca_0''"
      and overwrite_data = True and link_type = "''soft''" and create_dataset_args = "[]"
      and st = ?st, unfolded p2 ex_group_link Let_def]
  note kept = group_node_keeps_own_path [where h5path = "''/''"
      and spec_h5_name = "''/1.1/instrument/mca_0''"
      and overwrite_data = False and link_type = "''soft''" and create_dataset_args = "[]"
      and st = ?st, unfolded p2 ex_group_link Let_def]
  from old c ex_scan_no_match
  have 1: "append_spec_member_to_h5 ''/'' True ''hard'' [] ''/1.1'' SpecFileH5Group ?old = Inr ?old"
    by simp
  from new a l ex_group_match
  have 2: "append_spec_member_to_h5 ''/'' True ''soft'' [] ''/1.1/instrument/mca_0''
        SpecFileH5Group ?st
       = Inr (set_member ''/1.1/measurement/mca_0/info'' (SoftLink ''/1.1/instrument/mca_0'')
               (del_member ''/1.1/measurement/mca_0/info''
                  (log WARNING
                     ''Overwriting /1.1/measurement/mca_0/info with link to/1.1/instrument/mca_0''
                     (create_group ''/1.1/instrument/mca_0''
                        (log DEBUG ''Creating group: /1.1/instrument/mca_0'' ?st)))))"
    by simp
  from kept a l ex_group_match
  have 3: "h5f (final_env (append_spec_member_to_h5 ''/'' False ''soft'' []
        ''/1.1/instrument/mca_0'' SpecFileH5Group ?st)) ''/1.1/measurement/mca_0/info''
       = Some H5Group"
    by (simp add: env_of_def)
  show ?thesis
    by (intro conjI c ex_scan_no_match 1 a ex_group_match l 2 3)
qed

section \<open>The convenience entry point\<close>

text \<open>
  C8. Called with a file mode other than \<^verbatim>\<open>"w"\<close> and \<^verbatim>\<open>"w-"\<close>, \<open>convert\<close> raises its
  configuration error (an \<^verbatim>\<open>IOError\<close>) at once: the state it returns with the error is
  the state it was called in, so no file has been opened (the list of file events is
  unchanged), nothing was written to a container, and \<open>write_spec_to_h5\<close> was not called.
\<close>

theorem convert_rejects_other_modes:
  assumes "h5_file_mode \<noteq> ''w''" and "h5_file_mode \<noteq> ''w-''"
  shows "convert ext spec_file h5_file h5_file_mode link_type create_dataset_args st
           = Inl (IOError, st)"
  using assms by (simp add: convert_def)

theorem convert_rejects_other_modes_witness:
  "''a'' \<noteq> ''w'' \<and> ''a'' \<noteq> ''w-'' \<and>
   convert \<lparr>open_SpecFileH5 = (\<lambda>p. Inr [(''/1.1'', SpecFileH5Group)]),
            open_File = (\<lambda>p m. Inr Map.empty)\<rparr>
       (SpecPath ''in.dat'') (H5Path ''out.h5'') ''a'' ''hard'' None
       \<lparr>h5f = Map.empty, logger = [], events = []\<rparr>
     = Inl (IOError, \<lparr>h5f = (Map.empty :: string \<rightharpoonup> nat member), logger = [], events = []\<rparr>)"
  using convert_rejects_other_modes [of "''a''"] by simp

section \<open>The separator before the last segment is optional\<close>

text \<open>
  C9. The dataset pattern ends in \<^verbatim>\<open>/?data$\<close>, so a target path of the form
  \<^verbatim>\<open>p/<a>.<b>/instrument/mca_<n>data\<close>, with no separator between the index and
  \<^verbatim>\<open>data\<close>, matches it too. A dataset created at such a path gets its derived link like
  one at \<^verbatim>\<open>.../mca_<n>/data\<close>: when the link type is valid and the derived path is free
  (or \<open>overwrite_data\<close> holds), the node completes and the derived path holds a link to
  the dataset.
\<close>

theorem alias_separator_before_data_optional:
  assumes "newline \<notin> set p" and "is_digits a" and "is_digits b" and "is_digits n"
    and "h5path @ lstrip spec_h5_name ''/''
           = p @ ''/'' @ a @ ''.'' @ b @ ''/instrument/mca_'' @ n @ ''data''"
    and "overwrite_data \<or> \<not> contains st (h5path @ lstrip spec_h5_name ''/'')"
    and "link_type = ''hard'' \<or> link_type = ''soft''"
    and "overwrite_data \<or> \<not> contains st
           (str_replace p ''instrument'' ''measurement''
              @ ''/'' @ a @ ''.'' @ b @ ''/measurement/mca_'' @ n @ ''data'')"
  shows "re_match_dollar dataset_alias_re (h5path @ lstrip spec_h5_name ''/'')
       \<and> (\<exists>st'. append_spec_member_to_h5 h5path overwrite_data link_type create_dataset_args
                   spec_h5_name (SpecFileH5Dataset shp d) st = Inr st'
              \<and> h5f st' (str_replace p ''instrument'' ''measurement''
                           @ ''/'' @ a @ ''.'' @ b @ ''/measurement/mca_'' @ n @ ''data'')
                  = Some (if link_type = ''hard''
                          then HardLink (h5path @ lstrip spec_h5_name ''/'')
                          else SoftLink (h5path @ lstrip spec_h5_name ''/'')))"
proof -
  have t: "''data'' = ''data'' \<or> ''data'' = ''/data''" by simp
  from mca_dataset_link [OF assms(1-4) t assms(5) refl assms(6-8),
      of create_dataset_args shp d]
  show ?thesis
    by (auto simp: append_member_dataset)
qed

theorem alias_separator_before_data_optional_witness:
  "newline \<notin> set [] \<and> is_digits ''1'' \<and> is_digits ''0''
   \<and> \<not> contains empty_env ''/1.1/instrument/mca_0data''
   \<and> \<not> contains empty_env ''/1.1/measurement/mca_0data''
   \<and> re_match_dollar dataset_alias_re ''/1.1/instrument/mca_0data''
   \<and> (\<exists>st'. append_spec_member_to_h5 ''/'' False ''soft'' [] ''/1.1/instrument/mca_0data''
                (SpecFileH5Dataset [1024] 3) empty_env = Inr st'
          \<and> h5f st' ''/1.1/measurement/mca_0data''
              = Some (SoftLink ''/1.1/instrument/mca_0data''))"
proof -
  have p: "newline \<notin> set []" by simp
  have d1: "is_digits ''1''" and d0: "is_digits ''0''" by (simp_all add: is_digits_def)
  have path: "''/'' @ lstrip ''/1.1/instrument/mca_0data'' ''/''
      = [] @ ''/'' @ ''1'' @ ''.'' @ ''1'' @ ''/instrument/mca_'' @ ''0'' @ ''data''"
    by (simp add: lstrip_def)
  have c: "\<not> contains empty_env ''/1.1/instrument/mca_0data''"
    and f: "\<not> contains empty_env ''/1.1/measurement/mca_0data''"
    by (simp_all add: contains_def empty_env_def)
  have created: "False \<or> \<not> contains empty_env (''/'' @ lstrip ''/1.1/instrument/mca_0data'' ''/'')"
    using c by (simp add: lstrip_def)
  have valid: "''soft'' = ''hard'' \<or> ''soft'' = ''soft''" by simp
  have free: "False \<or> \<not> contains empty_env
      (str_replace [] ''instrument'' ''measurement''
         @ ''/'' @ ''1'' @ ''.'' @ ''1'' @ ''/measurement/mca_'' @ ''0'' @ ''data'')"
    using f by (simp add: str_replace_Nil)
  from alias_separator_before_data_optional [OF p d1 d1 d0 path created valid free, of "[]" "[1024]" 3]
  have "re_match_dollar dataset_alias_re ''/1.1/instrument/mca_0data''
   \<and> (\<exists>st'. append_spec_member_to_h5 ''/'' False ''soft'' [] ''/1.1/instrument/mca_0data''
                (SpecFileH5Dataset [1024] 3) empty_env = Inr st'
          \<and> h5f st' ''/1.1/measurement/mca_0data''
              = Some (SoftLink ''/1.1/instrument/mca_0data''))"
    by (simp add: lstrip_def str_replace_Nil)
  with p d1 d0 c f show ?thesis by simp
qed

section \<open>Link creation is not atomic\<close>

text \<open>
  C10. In \<open>create_link\<close> with \<open>overwrite_data\<close> true, a member that already sits at the
  link path is deleted before the link type is looked at. With a link type other than
  \<^verbatim>\<open>"hard"\<close> and \<^verbatim>\<open>"soft"\<close> the \<^verbatim>\<open>ValueError\<close> therefore surfaces with that member
  already removed from the target; and the converter reaches this state on a dataset node
  whose path matches the alias pattern and whose derived link path is taken.
\<close>

theorem create_link_deletes_before_validating:
  assumes "contains st link_name" and "link_type \<noteq> ''hard''" and "link_type \<noteq> ''soft''"
  shows "create_link True link_type link_name target st
           = Inl (ValueError,
                  del_member link_name
                    (log WARNING (''Overwriting '' @ link_name @ '' with link to'' @ target) st))
         \<and> h5f (final_env (create_link True link_type link_name target st)) link_name = None
         \<and> h5f st link_name \<noteq> None
         \<and> (re_match_dollar dataset_alias_re h5_name
              \<and> str_replace h5_name ''instrument'' ''measurement'' = link_name
            \<longrightarrow> (\<exists>st'. append_dataset True link_type create_dataset_args h5_name shp d st
                         = Inl (ValueError, st')
                     \<and> h5f st' link_name = None))"
proof -
  have direct: "create_link True link_type link_name target s
           = Inl (ValueError,
                  del_member link_name
                    (log WARNING (''Overwriting '' @ link_name @ '' with link to'' @ target) s))"
    if "contains s link_name" for s :: "'a env" and target
    using that assms(2,3) by (simp add: create_link_def)
  have node: "\<exists>st'. append_dataset True link_type create_dataset_args h5_name shp d st
                         = Inl (ValueError, st')
                     \<and> h5f st' link_name = None"
    if m: "re_match_dollar dataset_alias_re h5_name"
      and l: "str_replace h5_name ''instrument'' ''measurement'' = link_name"
  proof -
    let ?st3 = "create_dataset h5_name d (if shp = [] then [] else create_dataset_args)
                  (if contains st h5_name
                   then del_member h5_name
                          (log WARNING (''Overwriting dataset: '' @ h5_name)
                             (log DEBUG (''Saving dataset: '' @ h5_name) st))
                   else log DEBUG (''Saving dataset: '' @ h5_name) st)"
    have "link_name \<noteq> h5_name"
      using alias_link_name_differs [of h5_name] m l by auto
    with assms(1) have "contains ?st3 link_name"
      by (simp add: contains_def create_dataset_def)
    from direct [OF this, of h5_name]
    have "append_dataset True link_type create_dataset_args h5_name shp d st
        = Inl (ValueError,
               del_member link_name
                 (log WARNING (''Overwriting '' @ link_name @ '' with link to'' @ h5_name) ?st3))"
      using m l by (simp only: append_dataset_created [of True] Let_def simp_thms if_True)
    then show ?thesis by simp
  qed
  from direct [OF assms(1), of target] assms(1) node show ?thesis
    by (simp add: contains_def)
qed

theorem create_link_deletes_before_validating_witness:
  "contains (env_of [''/1.1/measurement/mca_0/data'' \<mapsto> H5Group]) ''/1.1/measurement/mca_0/data''
   \<and> ''firm'' \<noteq> ''hard'' \<and> ''firm'' \<noteq> ''soft''
   \<and> create_link True ''firm'' ''/1.1/measurement/mca_0/data'' ''/1.1/instrument/mca_0/data''
       (env_of [''/1.1/measurement/mca_0/data'' \<mapsto> H5Group])
     = Inl (ValueError,
         \<lparr>h5f = Map.empty,
          logger = [(WARNING, ''Overwriting /1.1/measurement/mca_0/data with link to/1.1/instrument/mca_0/data'')],
          events = []\<rparr>)
   \<and> (\<exists>st'. append_dataset True ''firm'' [] ''/1.1/instrument/mca_0/data'' [1024] 3
                (env_of [''/1.1/measurement/mca_0/data'' \<mapsto> H5Group])
              = Inl (ValueError, st')
          \<and> h5f st' ''/1.1/measurement/mca_0/data'' = None)"
proof -
  let ?st = "env_of [''/1.1/measurement/mca_0/data'' \<mapsto> H5Group]"
  have c: "contains ?st ''/1.1/measurement/mca_0/data''"
    by (simp add: contains_def env_of_def)
  have h: "''firm'' \<noteq> ''hard''" and s: "''firm'' \<noteq> ''soft''" by simp_all
  from create_link_deletes_before_validating [OF c h s,
      of "''/1.1/instrument/mca_0/data''" "''/1.1/instrument/mca_0/data''" "[]" "[1024]" 3]
    ex_data_match ex_data_link c
  show ?thesis by (simp add: del_member_def log_def env_of_def)
qed

end
